theory Spec2Isabelle
  imports Complex_Main
begin

section \<open>The SEMF scoring engine (src/utils/semfScoring.ts)\<close>

text \<open>
  The engine is the class \<open>SEMFScoringEngine\<close>: three static tables and the two static
  methods \<open>calculateActualScores\<close> and \<open>calculateSEMFLevel\<close>; the closures of the second
  method (\<open>mapToLevel\<close>, \<open>applyTieBreaker\<close>, \<open>levelToNumber\<close>, \<open>getDetailedFeedback\<close>)
  are top-level functions here. Numbers of the source are IEEE doubles; they are modelled
  by exact reals. The scores the engine computes are \<open>(k / m) * 50\<close> for a count \<open>k\<close> and
  \<open>m\<close> one of 12, 20 and 24: those that are integers are exact doubles, and the others lie
  at least 1/12 away from every integer, so each comparison with a cutoff has the same
  outcome in both. Levels are the strings \<open>S1\<close> .. \<open>S5\<close>, as in the source.
\<close>

subsection \<open>Level cutoffs\<close>

record cutoff =
  min_cut :: real
  max_cut :: real

definition LEVEL_CUTOFFS :: "(string \<times> cutoff) list" where
  "LEVEL_CUTOFFS =
    [(''S1'', \<lparr>min_cut = 0, max_cut = 15\<rparr>),
     (''S2'', \<lparr>min_cut = 16, max_cut = 25\<rparr>),
     (''S3'', \<lparr>min_cut = 26, max_cut = 33\<rparr>),
     (''S4'', \<lparr>min_cut = 34, max_cut = 42\<rparr>),
     (''S5'', \<lparr>min_cut = 43, max_cut = 50\<rparr>)]"

text \<open>\<open>Object.keys(LEVEL_CUTOFFS)\<close>: the keys in insertion order.\<close>

definition LEVEL_KEYS :: "string list" where
  "LEVEL_KEYS = map fst LEVEL_CUTOFFS"

text \<open>\<open>Array.prototype.indexOf\<close>: the first position of the element, \<open>-1\<close> when absent.\<close>

fun indexOf :: "'a list \<Rightarrow> 'a \<Rightarrow> int" where
  "indexOf [] x = -1"
| "indexOf (y # ys) x =
    (if y = x then 0 else (let i = indexOf ys x in if i < 0 then -1 else i + 1))"

subsection \<open>Step 2: mapping a normalized score to a level\<close>

text \<open>
  The loop \<open>for (const [level, range] of Object.entries(LEVEL_CUTOFFS))\<close> of \<open>mapToLevel\<close>
  returns the first band that contains the score; after the loop comes the fallback \<open>S1\<close>.
\<close>

fun mapToLevel_loop :: "(string \<times> cutoff) list \<Rightarrow> real \<Rightarrow> string" where
  "mapToLevel_loop [] normalizedScore = ''S1''"
| "mapToLevel_loop ((level, range') # rest) normalizedScore =
    (if normalizedScore \<ge> min_cut range' \<and> normalizedScore \<le> max_cut range'
     then level
     else mapToLevel_loop rest normalizedScore)"

definition mapToLevel :: "real \<Rightarrow> string" where
  "mapToLevel normalizedScore = mapToLevel_loop LEVEL_CUTOFFS normalizedScore"

subsection \<open>Step 3: the tie-breaker\<close>

text \<open>
  The loop of \<open>applyTieBreaker\<close>: \<open>Some\<close> is a \<open>return\<close> from inside the loop, \<open>None\<close> is
  the loop running to its end. The index of the downward case is looked up in the keys of
  the whole table.
\<close>

fun applyTieBreaker_loop :: "(string \<times> cutoff) list \<Rightarrow> real \<Rightarrow> real \<Rightarrow> (string \<times> bool) option" where
  "applyTieBreaker_loop [] normalizedScore grammarVocabNorm = None"
| "applyTieBreaker_loop ((level, range') # rest) normalizedScore grammarVocabNorm =
    (let lowerBoundary = min_cut range';
         upperBoundary = max_cut range';
         levelIndex = indexOf LEVEL_KEYS level
     in
       if normalizedScore \<ge> lowerBoundary - 2 \<and> normalizedScore < lowerBoundary
          \<and> grammarVocabNorm \<ge> 35
       then Some (level, True)
       else if normalizedScore > upperBoundary \<and> normalizedScore \<le> upperBoundary + 2
          \<and> grammarVocabNorm < 35 \<and> levelIndex > 0
       then Some (LEVEL_KEYS ! nat (levelIndex - 1), True)
       else applyTieBreaker_loop rest normalizedScore grammarVocabNorm)"

definition applyTieBreaker :: "real \<Rightarrow> real \<Rightarrow> string \<times> bool" where
  "applyTieBreaker normalizedScore grammarVocabNorm =
    (let baseLevel = mapToLevel normalizedScore
     in case applyTieBreaker_loop LEVEL_CUTOFFS normalizedScore grammarVocabNorm of
          Some r \<Rightarrow> r
        | None \<Rightarrow> (baseLevel, False))"

subsection \<open>Strings\<close>

text \<open>
  The texts of the answer map and of the answer key are JavaScript strings: sequences of
  UTF-16 code units, here lists of integers; \<open>js\<close> turns an ASCII literal into one. The
  texts the engine itself builds (levels, descriptions, summary) stay Isabelle strings.
\<close>

type_synonym jsstring = "int list"

definition js :: "string \<Rightarrow> jsstring" where
  "js s = map of_char s"

text \<open>
  White space is what \<open>String.prototype.trim\<close> removes and what \<open>\s\<close> matches in a regular
  expression: the WhiteSpace and LineTerminator code points of the language, namely tab,
  line feed, vertical tab, form feed, carriage return, space, U+00A0, U+1680, U+2000 to
  U+200A, U+2028, U+2029, U+202F, U+205F, U+3000 and U+FEFF.
\<close>

definition isWhiteSpace :: "int \<Rightarrow> bool" where
  "isWhiteSpace c \<longleftrightarrow>
     c \<in> set [0x09, 0x0A, 0x0B, 0x0C, 0x0D, 0x20, 0xA0, 0x1680, 0x2028, 0x2029, 0x202F,
               0x205F, 0x3000, 0xFEFF]
     \<or> (0x2000 \<le> c \<and> c \<le> 0x200A)"

definition trim :: "jsstring \<Rightarrow> jsstring" where
  "trim s = rev (dropWhile isWhiteSpace (rev (dropWhile isWhiteSpace s)))"

text \<open>
  The case mappings, as far as the engine can tell them from those of the language. The
  upper-cased answer is only compared with a key \<open>A\<close> to \<open>D\<close>, and no text with a code unit
  outside ASCII upper-cases to one of these keys: \<open>toUpperCase\<close> maps the letters \<open>a\<close> to
  \<open>z\<close> and leaves every other code unit in place. The lower-cased text is searched for
  ASCII keywords and measured: outside ASCII only U+0130 (to \<open>i\<close> and U+0307) and U+212A
  (to \<open>k\<close>) lower-case to something with an ASCII letter or of another length, and
  \<open>toLowerCase\<close> maps these two and the letters \<open>A\<close> to \<open>Z\<close> and leaves every other code
  unit in place.
\<close>

definition upperUnit :: "int \<Rightarrow> jsstring" where
  "upperUnit c = (if 0x61 \<le> c \<and> c \<le> 0x7A then [c - 0x20] else [c])"

definition toUpperCase :: "jsstring \<Rightarrow> jsstring" where
  "toUpperCase s = concat (map upperUnit s)"

definition lowerUnit :: "int \<Rightarrow> jsstring" where
  "lowerUnit c =
     (if 0x41 \<le> c \<and> c \<le> 0x5A then [c + 0x20]
      else if c = 0x130 then [0x69, 0x307]
      else if c = 0x212A then [0x6B]
      else [c])"

definition toLowerCase :: "jsstring \<Rightarrow> jsstring" where
  "toLowerCase s = concat (map lowerUnit s)"

fun startsWith :: "'a list \<Rightarrow> 'a list \<Rightarrow> bool" where
  "startsWith s [] = True"
| "startsWith [] (c # t) = False"
| "startsWith (a # s) (c # t) = (a = c \<and> startsWith s t)"

text \<open>\<open>s.includes(t)\<close>: \<open>t\<close> occurs in \<open>s\<close> as a contiguous substring.\<close>

fun includes_str :: "'a list \<Rightarrow> 'a list \<Rightarrow> bool" where
  "includes_str [] t = (t = [])"
| "includes_str (a # s) t = (startsWith (a # s) t \<or> includes_str s t)"

text \<open>
  \<open>s.split(/\s+/)\<close>: the pieces of \<open>s\<close> between the maximal runs of white space; a run at
  the start or at the end of \<open>s\<close> leaves an empty piece there, and the empty string splits
  into one empty piece. \<open>cur\<close> is the piece being read, reversed.
\<close>

function split_ws :: "jsstring \<Rightarrow> jsstring \<Rightarrow> jsstring list" where
  "split_ws cur [] = [rev cur]"
| "split_ws cur (c # cs) =
    (if isWhiteSpace c then rev cur # split_ws [] (dropWhile isWhiteSpace cs)
     else split_ws (c # cur) cs)"
  by pat_completeness auto
termination
  by (relation "measure (\<lambda>(cur, s). length s)") (auto simp: length_dropWhile_le less_Suc_eq_le)

subsection \<open>The for loop\<close>

text \<open>\<open>for (let i = lo; i <= hi; i++) body\<close>, the state being the variables the body updates.\<close>

function forLoop :: "int \<Rightarrow> int \<Rightarrow> (int \<Rightarrow> 's \<Rightarrow> 's) \<Rightarrow> 's \<Rightarrow> 's" where
  "forLoop i hi body s = (if i \<le> hi then forLoop (i + 1) hi body (body i s) else s)"
  by pat_completeness auto
termination
  by (relation "measure (\<lambda>(i, hi, body, s). nat (hi + 1 - i))") auto

declare forLoop.simps [simp del]

subsection \<open>Answer key\<close>

definition CORRECT_ANSWERS :: "(int \<times> jsstring) list" where
  "CORRECT_ANSWERS =
    [(1, js ''B''), (2, js ''A''), (3, js ''C''), (4, js ''B''), (5, js ''C''),
     (6, js ''C''), (7, js ''B''), (8, js ''A''), (9, js ''C''), (10, js ''A''),
     (11, js ''B''), (12, js ''B''), (13, js ''C''), (14, js ''C''), (15, js ''C''),
     (16, js ''B''), (17, js ''B''), (18, js ''B''), (19, js ''C''), (20, js ''B''),
     (21, js ''C''), (22, js ''C''), (23, js ''B''), (24, js ''D''), (25, js ''B''),
     (26, js ''C''), (27, js ''B''), (28, js ''B''), (29, js ''B''), (30, js ''B''),
     (31, js ''B''), (32, js ''B''), (33, js ''C''), (34, js ''A''), (35, js ''C''),
     (36, js ''B, C, D, A''), (37, js ''C, B, A, D''), (38, js ''A, C, D, B''),
     (39, js ''B, C, D, A''), (40, js ''C, B, D, A''),
     (45, js ''B''), (46, js ''B''), (47, js ''C''), (48, js ''B''), (49, js ''B''), (50, js ''C''),
     (51, js ''B''), (52, js ''B''), (53, js ''B''), (54, js ''B''), (55, js ''C''), (56, js ''B'')]"

definition TEXT_ANSWER_KEYWORDS :: "(int \<times> jsstring list) list" where
  "TEXT_ANSWER_KEYWORDS =
    [(41, [js ''flexibility'', js ''commute'', js ''talent'', js ''global'', js ''reduced'', js ''access'']),
     (42, [js ''isolation'', js ''culture'', js ''security'', js ''challenges'', js ''difficulties'']),
     (43, [js ''maximize'', js ''benefits'', js ''mitigate'', js ''drawbacks'', js ''strategies'', js ''developing''])]"

subsection \<open>Grading: \<open>calculateActualScores\<close>\<close>

record SEMFInput =
  GrammarVocabulary :: nat
  ReadingWriting :: nat
  Listening :: nat

text \<open>
  A property read of \<open>undefined\<close> raises a \<open>TypeError\<close>; the only read of the engine that
  goes through a table lookup is \<open>keywords.filter\<close> of the text questions.
\<close>

datatype error = TypeError

text \<open>
  The conditions of the loop bodies. A missing answer is \<open>undefined\<close> (\<open>None\<close>), which
  optional chaining hands on, and so is a key the answer table does not have; \<open>===\<close>
  compares the two.
\<close>

definition choiceMatch :: "(int \<rightharpoonup> jsstring) \<Rightarrow> int \<Rightarrow> bool" where
  "choiceMatch answers i =
    (let userAnswer = map_option (\<lambda>a. toUpperCase (trim a)) (answers i);
         correctAnswer = map_of CORRECT_ANSWERS i
     in userAnswer = correctAnswer)"

definition orderingMatch :: "(int \<rightharpoonup> jsstring) \<Rightarrow> int \<Rightarrow> bool" where
  "orderingMatch answers i =
    (let userAnswer = map_option trim (answers i);
         correctAnswer = map_of CORRECT_ANSWERS i
     in userAnswer = correctAnswer)"

definition textMatch :: "(int \<rightharpoonup> jsstring) \<Rightarrow> int \<Rightarrow> error + bool" where
  "textMatch answers i =
    (let userAnswer = (case answers i of None \<Rightarrow> [] | Some a \<Rightarrow> toLowerCase a)
     in case map_of TEXT_ANSWER_KEYWORDS i of
          None \<Rightarrow> Inl TypeError
        | Some keywords \<Rightarrow>
            (let keywordMatches =
                   length (filter (\<lambda>keyword. includes_str userAnswer (toLowerCase keyword)) keywords)
             in Inr (keywordMatches \<ge> 2 \<and> length userAnswer \<ge> 20)))"

definition essayAnswerOf :: "(int \<rightharpoonup> jsstring) \<Rightarrow> jsstring" where
  "essayAnswerOf answers = (case answers 44 of None \<Rightarrow> [] | Some a \<Rightarrow> trim a)"

definition wordCountOf :: "jsstring \<Rightarrow> nat" where
  "wordCountOf essayAnswer = (if essayAnswer \<noteq> [] then length (split_ws [] essayAnswer) else 0)"

definition essayMatch :: "(int \<rightharpoonup> jsstring) \<Rightarrow> bool" where
  "essayMatch answers =
    (let essayAnswer = essayAnswerOf answers;
         wordCount = wordCountOf essayAnswer
     in if wordCount \<ge> 80 \<and> wordCount \<le> 200 \<and> length essayAnswer > 0
        then (let hasArgument =
                    includes_str (toLowerCase essayAnswer) (js ''advantage'') \<or>
                    includes_str (toLowerCase essayAnswer) (js ''disadvantage'') \<or>
                    includes_str (toLowerCase essayAnswer) (js ''benefit'') \<or>
                    includes_str (toLowerCase essayAnswer) (js ''challenge'')
              in hasArgument)
        else False)"

definition countIf :: "bool \<Rightarrow> nat \<Rightarrow> nat" where
  "countIf b score = (if b then score + 1 else score)"

definition calculateActualScores :: "(int \<rightharpoonup> jsstring) \<Rightarrow> error + SEMFInput" where
  "calculateActualScores answers =
    (let grammarScore = forLoop 1 20 (\<lambda>i. countIf (choiceMatch answers i)) 0;
         readingWritingScore = forLoop 21 35 (\<lambda>i. countIf (choiceMatch answers i)) 0;
         readingWritingScore = forLoop 36 40 (\<lambda>i. countIf (orderingMatch answers i)) readingWritingScore
     in case forLoop 41 43
               (\<lambda>i s. case s of
                         Inl e \<Rightarrow> Inl e
                       | Inr score \<Rightarrow>
                           (case textMatch answers i of
                              Inl e \<Rightarrow> Inl e
                            | Inr b \<Rightarrow> Inr (countIf b score)))
               (Inr readingWritingScore) of
          Inl e \<Rightarrow> Inl e
        | Inr readingWritingScore \<Rightarrow>
            (let readingWritingScore = countIf (essayMatch answers) readingWritingScore;
                 listeningScore = forLoop 45 56 (\<lambda>i. countIf (choiceMatch answers i)) 0
             in Inr \<lparr>GrammarVocabulary = grammarScore,
                     ReadingWriting = readingWritingScore,
                     Listening = listeningScore\<rparr>))"

subsection \<open>Numbers and their text\<close>

text \<open>\<open>Math.round\<close>: the nearest integer, a half rounding up.\<close>

definition Math_round :: "real \<Rightarrow> int" where
  "Math_round x = \<lfloor>x + 1 / 2\<rfloor>"

definition digitChars :: string where
  "digitChars = ''0123456789''"

definition digitValue :: "char \<Rightarrow> nat option" where
  "digitValue c = map_of (zip digitChars [0, 1, 2, 3, 4, 5, 6, 7, 8, 9]) c"

text \<open>The text of an integer in a template literal: its decimal digits.\<close>

function showNat :: "nat \<Rightarrow> string" where
  "showNat n = (if n < 10 then [digitChars ! n] else showNat (n div 10) @ [digitChars ! (n mod 10)])"
  by pat_completeness auto
termination
  by (relation "measure id") auto

declare showNat.simps [simp del]

definition showInt :: "int \<Rightarrow> string" where
  "showInt k = (if k < 0 then ''-'' @ showNat (nat (- k)) else showNat (nat k))"

text \<open>
  \<open>parseInt\<close> in base ten: white space, a sign, then the longest run of digits; with no
  digit the result is \<open>NaN\<close> (\<open>None\<close>). Every call of the engine passes one decimal digit;
  the prefixes of other bases are left out.
\<close>

definition parseInt :: "string \<Rightarrow> int option" where
  "parseInt s =
    (let t = dropWhile (\<lambda>c. isWhiteSpace (of_char c)) s;
         negative = (case t of [] \<Rightarrow> False | c # r \<Rightarrow> c = CHR ''-'');
         u = (case t of [] \<Rightarrow> [] | c # r \<Rightarrow> if c = CHR ''-'' \<or> c = CHR ''+'' then r else t);
         ds = takeWhile (\<lambda>c. digitValue c \<noteq> None) u;
         n = foldl (\<lambda>n c. case digitValue c of None \<Rightarrow> n | Some d \<Rightarrow> 10 * n + d) 0 ds
     in if ds = [] then None else Some (if negative then - int n else int n))"

text \<open>\<open>Math.min\<close> of two numbers, \<open>NaN\<close> if either is.\<close>

definition Math_min :: "int option \<Rightarrow> int option \<Rightarrow> int option" where
  "Math_min a b = (case a of None \<Rightarrow> None | Some x \<Rightarrow> (case b of None \<Rightarrow> None | Some y \<Rightarrow> Some (min x y)))"

definition showNumber :: "int option \<Rightarrow> string" where
  "showNumber a = (case a of None \<Rightarrow> ''NaN'' | Some k \<Rightarrow> showInt k)"

subsection \<open>Step 1: normalization\<close>

definition grammarVocabNorm_of :: "SEMFInput \<Rightarrow> real" where
  "grammarVocabNorm_of rawScores = (real (GrammarVocabulary rawScores) / 20) * 50"

definition readingWritingNorm_of :: "SEMFInput \<Rightarrow> real" where
  "readingWritingNorm_of rawScores = (real (ReadingWriting rawScores) / 24) * 50"

definition listeningNorm_of :: "SEMFInput \<Rightarrow> real" where
  "listeningNorm_of rawScores = (real (Listening rawScores) / 12) * 50"

subsection \<open>Step 4: the overall level\<close>

definition levelToNumber :: "string \<Rightarrow> int option" where
  "levelToNumber level = parseInt (drop 1 level)"

subsection \<open>Step 5: the report\<close>

definition LEVEL_DESCRIPTIONS :: "(string \<times> string) list" where
  "LEVEL_DESCRIPTIONS =
    [(''S1'', ''Basic user - understands and uses simple expressions.''),
     (''S2'', ''Elementary user - can handle short, routine exchanges.''),
     (''S3'', ''Independent user - can deal with most everyday situations.''),
     (''S4'', ''Proficient user - can interact fluently and spontaneously.''),
     (''S5'', ''Mastery - can express ideas precisely in complex situations.'')]"

record TieBreakerSkill =
  skill :: string
  rawScore :: nat
  normalizedScore :: real

record SEMFSkillResult = TieBreakerSkill +
  level :: string
  tieBreakerApplied :: bool

text \<open>
  \<open>descriptions\<close> keeps its entries in insertion order; an entry whose level has no
  description holds \<open>undefined\<close> (\<open>None\<close>).
\<close>

record SEMFResult =
  skills :: "SEMFSkillResult list"
  tieBreakerSkill :: TieBreakerSkill
  overallLevel :: string
  descriptions :: "(string \<times> string option) list"
  summary :: string

text \<open>\<open>new Set(xs)\<close>, listed in insertion order as \<open>forEach\<close> visits it.\<close>

definition newSet :: "'a list \<Rightarrow> 'a list" where
  "newSet xs = foldl (\<lambda>acc x. if x \<in> set acc then acc else acc @ [x]) [] xs"

definition newline :: string where
  "newline = [CHR 0x0A]"

text \<open>The bullet U+2022 of the breakdown lines, in UTF-8.\<close>

definition bullet :: string where
  "bullet = [CHR 0xE2, CHR 0x80, CHR 0xA2]"

text \<open>\<open>Object.keys(answers).length\<close>: the number of entries of the answer map.\<close>

definition totalAnswered :: "(int \<rightharpoonup> jsstring) \<Rightarrow> nat" where
  "totalAnswered answers = card (dom answers)"

definition completionRate :: "(int \<rightharpoonup> jsstring) \<Rightarrow> real" where
  "completionRate answers =
    (let totalPossible = 56
     in (real (totalAnswered answers) / totalPossible) * 100)"

definition recommendations :: "string \<Rightarrow> string" where
  "recommendations level' =
    (if level' = ''S1'' then
       ''Recommendations: Focus on basic vocabulary building, simple sentence structures, and everyday expressions. Practice listening to slow, clear speech.''
     else if level' = ''S2'' then
       ''Recommendations: Expand vocabulary for common situations, practice past and future tenses, and work on basic conversation skills.''
     else if level' = ''S3'' then
       ''Recommendations: Study complex grammar structures, academic vocabulary, and practice expressing opinions clearly in writing.''
     else if level' = ''S4'' then
       ''Recommendations: Refine advanced grammar usage, expand professional vocabulary, and practice nuanced expression in complex topics.''
     else if level' = ''S5'' then
       ''Recommendations: Maintain proficiency through exposure to complex texts, academic writing, and professional communication contexts.''
     else ''Continue practicing to improve your English proficiency.'')"

definition completionLine :: "(int \<rightharpoonup> jsstring) \<Rightarrow> string" where
  "completionLine answers =
    bullet @ '' Test Completion: '' @ showInt (Math_round (completionRate answers)) @ ''%''
      @ newline @ newline"

definition getDetailedFeedback :: "(int \<rightharpoonup> jsstring) \<Rightarrow> string \<Rightarrow> SEMFInput \<Rightarrow> string" where
  "getDetailedFeedback answers level' scores =
    ''Overall SEMF Level: '' @ level' @ newline @ newline
    @ ''Performance Breakdown:'' @ newline
    @ bullet @ '' Grammar & Vocabulary: '' @ showNat (GrammarVocabulary scores) @ ''/20 (''
        @ showInt (Math_round ((real (GrammarVocabulary scores) / 20) * 100)) @ ''%)'' @ newline
    @ bullet @ '' Reading & Writing: '' @ showNat (ReadingWriting scores) @ ''/24 (''
        @ showInt (Math_round ((real (ReadingWriting scores) / 24) * 100)) @ ''%)'' @ newline
    @ bullet @ '' Listening: '' @ showNat (Listening scores) @ ''/12 (''
        @ showInt (Math_round ((real (Listening scores) / 12) * 100)) @ ''%)'' @ newline
    @ completionLine answers
    @ recommendations level'"

definition calculateSEMFLevel :: "(int \<rightharpoonup> jsstring) \<Rightarrow> error + SEMFResult" where
  "calculateSEMFLevel answers =
    (case calculateActualScores answers of
       Inl e \<Rightarrow> Inl e
     | Inr rawScores \<Rightarrow>
        (let grammarVocabNorm = grammarVocabNorm_of rawScores;
             readingWritingNorm = readingWritingNorm_of rawScores;
             listeningNorm = listeningNorm_of rawScores;
             readingWritingResult = applyTieBreaker readingWritingNorm grammarVocabNorm;
             listeningResult = applyTieBreaker listeningNorm grammarVocabNorm;
             readingWritingNumber = levelToNumber (fst readingWritingResult);
             listeningNumber = levelToNumber (fst listeningResult);
             overallNumber = Math_min readingWritingNumber listeningNumber;
             overallLevel' = ''S'' @ showNumber overallNumber;
             skills' =
               [\<lparr>skill = ''ReadingWriting'',
                 rawScore = ReadingWriting rawScores,
                 normalizedScore = real_of_int (Math_round (readingWritingNorm * 10)) / 10,
                 level = fst readingWritingResult,
                 tieBreakerApplied = snd readingWritingResult\<rparr>,
                \<lparr>skill = ''Listening'',
                 rawScore = Listening rawScores,
                 normalizedScore = real_of_int (Math_round (listeningNorm * 10)) / 10,
                 level = fst listeningResult,
                 tieBreakerApplied = snd listeningResult\<rparr>];
             tieBreakerSkill' =
               \<lparr>skill = ''GrammarVocabulary'',
                rawScore = GrammarVocabulary rawScores,
                normalizedScore = real_of_int (Math_round (grammarVocabNorm * 10)) / 10\<rparr>;
             levelsPresent = newSet [fst readingWritingResult, fst listeningResult, overallLevel'];
             descriptions' = map (\<lambda>l. (l, map_of LEVEL_DESCRIPTIONS l)) levelsPresent;
             summary' = getDetailedFeedback answers overallLevel' rawScores
         in Inr \<lparr>skills = skills',
                 tieBreakerSkill = tieBreakerSkill',
                 overallLevel = overallLevel',
                 descriptions = descriptions',
                 summary = summary'\<rparr>))"

section \<open>Notions used by the properties\<close>

text \<open>The bands of the cutoff table that contain a score.\<close>

definition bandsContaining :: "real \<Rightarrow> string list" where
  "bandsContaining n =
     map fst (filter (\<lambda>e. min_cut (snd e) \<le> n \<and> n \<le> max_cut (snd e)) LEVEL_CUTOFFS)"

text \<open>The two conditions under which an iteration of the tie-breaker loop returns.\<close>

definition upwardFires :: "cutoff \<Rightarrow> real \<Rightarrow> real \<Rightarrow> bool" where
  "upwardFires band s g \<longleftrightarrow> min_cut band - 2 \<le> s \<and> s < min_cut band \<and> 35 \<le> g"

definition downwardFires :: "string \<Rightarrow> cutoff \<Rightarrow> real \<Rightarrow> real \<Rightarrow> bool" where
  "downwardFires l band s g \<longleftrightarrow>
     max_cut band < s \<and> s \<le> max_cut band + 2 \<and> g < 35 \<and> 0 < indexOf LEVEL_KEYS l"

definition fires :: "real \<Rightarrow> real \<Rightarrow> string \<times> cutoff \<Rightarrow> bool" where
  "fires s g e \<longleftrightarrow> upwardFires (snd e) s g \<or> downwardFires (fst e) (snd e) s g"

definition outcome :: "real \<Rightarrow> real \<Rightarrow> string \<times> cutoff \<Rightarrow> string \<times> bool" where
  "outcome s g e =
     (if upwardFires (snd e) s g then (fst e, True)
      else (LEVEL_KEYS ! nat (indexOf LEVEL_KEYS (fst e) - 1), True))"



text \<open>A text occurs in another one: some text before it and some text after it.\<close>

definition occursIn :: "'a list \<Rightarrow> 'a list \<Rightarrow> bool" where
  "occursIn t s \<longleftrightarrow> (\<exists>pre post. s = pre @ t @ post)"

text \<open>The number of maximal runs of white space in a text, counted at the end of each run.\<close>

fun wsRuns :: "jsstring \<Rightarrow> nat" where
  "wsRuns [] = 0"
| "wsRuns [c] = (if isWhiteSpace c then 1 else 0)"
| "wsRuns (c # d # s) = (if isWhiteSpace c \<and> \<not> isWhiteSpace d then 1 else 0) + wsRuns (d # s)"

text \<open>A text question earns its point: the loop body of questions 41 to 43 counts it.\<close>

definition textOK :: "(int \<rightharpoonup> jsstring) \<Rightarrow> int \<Rightarrow> bool" where
  "textOK answers i \<longleftrightarrow> textMatch answers i = Inr True"

text \<open>
  A complete report: the two skill results in their order, each with a level of the
  table, the tie-breaker skill, an overall level of the table, a description for each
  level present and for no other, none of them undefined, and a summary.
\<close>

definition validReport :: "SEMFResult \<Rightarrow> bool" where
  "validReport r \<longleftrightarrow>
     map skill (skills r) = [''ReadingWriting'', ''Listening''] \<and>
     list_all (\<lambda>s. level s \<in> set LEVEL_KEYS) (skills r) \<and>
     skill (tieBreakerSkill r) = ''GrammarVocabulary'' \<and>
     overallLevel r \<in> set LEVEL_KEYS \<and>
     set (map fst (descriptions r)) = set (overallLevel r # map level (skills r)) \<and>
     list_all (\<lambda>e. snd e \<noteq> None) (descriptions r) \<and>
     summary r \<noteq> []"

text \<open>
  An answer set with questions 1 to 14 and 21 to 27 answered as the key has them: raw
  scores 14, 7 and 0.
\<close>

definition answers_upward :: "int \<rightharpoonup> jsstring" where
  "answers_upward =
     map_of (filter (\<lambda>e. fst e \<le> 14 \<or> (21 \<le> fst e \<and> fst e \<le> 27)) CORRECT_ANSWERS)"

text \<open>
  An answer set with questions 21 to 40 answered as the key has them and a text answer to
  question 41 that earns its point: raw scores 0, 21 and 0.
\<close>

definition answers_downward :: "int \<rightharpoonup> jsstring" where
  "answers_downward =
     map_of ((41, js ''Flexibility and no commute'')
             # filter (\<lambda>e. 21 \<le> fst e \<and> fst e \<le> 40) CORRECT_ANSWERS)"

text \<open>
  Essays for question 44: 81 words with the word \<open>Benefit\<close>; 80 times the word \<open>benefit\<close>
  with the ideographic space U+3000 after it; 81 words without a signal word; 201 words and
  79 words with the word \<open>benefit\<close>. And an answer map of 57 empty answers.
\<close>

definition essay_sample :: jsstring where
  "essay_sample = concat (replicate 20 (js ''remote work is a '')) @ js ''Benefit''"

definition essay_ideographic :: jsstring where
  "essay_ideographic = concat (replicate 80 (js ''benefit'' @ [0x3000]))"

definition essay_plain :: jsstring where
  "essay_plain = concat (replicate 20 (js ''remote work is a '')) @ js ''bonus''"

definition essay_long :: jsstring where
  "essay_long = concat (replicate 50 (js ''remote work is a '')) @ js ''benefit''"

definition essay_short :: jsstring where
  "essay_short = concat (replicate 79 (js ''benefit ''))"

definition answers_57 :: "int \<rightharpoonup> jsstring" where
  "answers_57 = (\<lambda>k. if 1 \<le> k \<and> k \<le> 57 then Some [] else None)"

section \<open>Levels and the tie-breaker\<close>

lemma LEVEL_KEYS_eq: "LEVEL_KEYS = [''S1'', ''S2'', ''S3'', ''S4'', ''S5'']"
  by (simp add: LEVEL_KEYS_def LEVEL_CUTOFFS_def)

text \<open>
  What does hold of the bands: no score lies in two of them, every integer score from 0
  to 50 lies in one, a score in a band gets the level of that band, and the scores next to
  each boundary get the levels on either side.
\<close>

lemma bands_disjoint: "length (bandsContaining n) \<le> 1"
  by (auto simp: bandsContaining_def LEVEL_CUTOFFS_def)

lemma band_of_integer_score:
  "0 \<le> k \<Longrightarrow> k \<le> 50 \<Longrightarrow> bandsContaining (real_of_int k) = [mapToLevel (real_of_int k)]"
  by (auto simp: bandsContaining_def mapToLevel_def LEVEL_CUTOFFS_def)

lemma band_of_score:
  "bandsContaining n = [l] \<Longrightarrow> mapToLevel n = l"
  by (auto simp: bandsContaining_def mapToLevel_def LEVEL_CUTOFFS_def split: if_splits)

lemma boundary_levels:
  "map mapToLevel [15, 16, 25, 26, 33, 34, 42, 43] =
     [''S1'', ''S2'', ''S2'', ''S3'', ''S3'', ''S4'', ''S4'', ''S5'']"
  by (simp add: mapToLevel_def LEVEL_CUTOFFS_def)

text \<open>
  C1. Every normalized score in the real interval from 0 to 50 lies in exactly one band.
  The code does not do this: the bands have integer ends, and a score strictly between two
  of them lies in no band. Sixteen right answers out of 24 give 100/3, which no band
  contains, and \<open>mapToLevel\<close> answers with its fallback \<open>S1\<close>.
\<close>

theorem mapToLevel_gap_fallback:
  "readingWritingNorm_of \<lparr>GrammarVocabulary = 0, ReadingWriting = 16, Listening = 0\<rparr> = 100 / 3
   \<and> bandsContaining (100 / 3) = []
   \<and> mapToLevel (100 / 3) = ''S1''
   \<and> mapToLevel (125 / 4) = ''S3''
   \<and> mapToLevel (425 / 12) = ''S4''"
  by (simp add: readingWritingNorm_of_def bandsContaining_def mapToLevel_def LEVEL_CUTOFFS_def)

text \<open>The loop returns at the first band that fires, whatever bands follow.\<close>

lemma loop_first_match:
  "applyTieBreaker_loop bs s g = map_option (outcome s g) (find (fires s g) bs)"
  by (induction bs) (auto simp: fires_def outcome_def upwardFires_def downwardFires_def Let_def)

lemma loop_append:
  "applyTieBreaker_loop (bs @ cs) s g =
     (case applyTieBreaker_loop bs s g of
        Some r \<Rightarrow> Some r
      | None \<Rightarrow> applyTieBreaker_loop cs s g)"
  by (induction bs) (auto simp: Let_def)






text \<open>
  C6. A raw score that does not exceed the maximum of its skill is normalized to a value
  from 0 to 50, and a larger raw score never gets a smaller normalized score.
\<close>

theorem normalization_bounded_monotone:
  "(GrammarVocabulary rs \<le> 20 \<longrightarrow> 0 \<le> grammarVocabNorm_of rs \<and> grammarVocabNorm_of rs \<le> 50)
   \<and> (ReadingWriting rs \<le> 24 \<longrightarrow> 0 \<le> readingWritingNorm_of rs \<and> readingWritingNorm_of rs \<le> 50)
   \<and> (Listening rs \<le> 12 \<longrightarrow> 0 \<le> listeningNorm_of rs \<and> listeningNorm_of rs \<le> 50)
   \<and> (GrammarVocabulary rs \<le> GrammarVocabulary rs' \<longrightarrow> grammarVocabNorm_of rs \<le> grammarVocabNorm_of rs')
   \<and> (ReadingWriting rs \<le> ReadingWriting rs' \<longrightarrow> readingWritingNorm_of rs \<le> readingWritingNorm_of rs')
   \<and> (Listening rs \<le> Listening rs' \<longrightarrow> listeningNorm_of rs \<le> listeningNorm_of rs')"
  by (simp add: grammarVocabNorm_of_def readingWritingNorm_of_def listeningNorm_of_def)

theorem normalization_bounded_monotone_witness:
  "grammarVocabNorm_of \<lparr>GrammarVocabulary = 14, ReadingWriting = 7, Listening = 8\<rparr> = 35
   \<and> 0 \<le> readingWritingNorm_of \<lparr>GrammarVocabulary = 14, ReadingWriting = 7, Listening = 8\<rparr>
   \<and> readingWritingNorm_of \<lparr>GrammarVocabulary = 14, ReadingWriting = 7, Listening = 8\<rparr> \<le> 50
   \<and> listeningNorm_of \<lparr>GrammarVocabulary = 14, ReadingWriting = 7, Listening = 8\<rparr>
       \<le> listeningNorm_of \<lparr>GrammarVocabulary = 20, ReadingWriting = 24, Listening = 12\<rparr>"
  using normalization_bounded_monotone
    [of "\<lparr>GrammarVocabulary = 14, ReadingWriting = 7, Listening = 8\<rparr>"
        "\<lparr>GrammarVocabulary = 20, ReadingWriting = 24, Listening = 12\<rparr>"]
  by (simp add: grammarVocabNorm_of_def)

section \<open>Grading\<close>

lemma forLoop_fold: "forLoop i hi body s = fold body [i..hi] s"
proof (induction i hi body s rule: forLoop.induct)
  case (1 i hi body s)
  show ?case
  proof (cases "i \<le> hi")
    case True
    then have "[i..hi] = i # [i + 1..hi]" by (simp add: upto_rec1)
    with True 1 show ?thesis by (subst forLoop.simps) simp
  next
    case False
    then show ?thesis by (subst forLoop.simps) simp
  qed
qed

lemma fold_countIf: "fold (\<lambda>i. countIf (P i)) xs s = s + length (filter P xs)"
  by (induction xs arbitrary: s) (simp_all add: countIf_def)

lemma forLoop_count: "forLoop lo hi (\<lambda>i. countIf (P i)) s = s + length (filter P [lo..hi])"
  by (simp add: forLoop_fold fold_countIf)

text \<open>The keyword table has the three text questions, so the lookup never fails.\<close>

lemma textMatch_Inr: "i \<in> {41, 42, 43} \<Longrightarrow> \<exists>b. textMatch answers i = Inr b"
  by (auto simp: textMatch_def TEXT_ANSWER_KEYWORDS_def Let_def)

lemma text_loop:
  "forLoop 41 43
     (\<lambda>i s. case s of Inl e \<Rightarrow> Inl e
           | Inr score \<Rightarrow> (case textMatch answers i of Inl e \<Rightarrow> Inl e | Inr b \<Rightarrow> Inr (countIf b score)))
     (Inr n)
   = Inr (n + length (filter (textOK answers) [41..43]))"
proof -
  obtain b1 where b1: "textMatch answers 41 = Inr b1" using textMatch_Inr[of 41] by auto
  obtain b2 where b2: "textMatch answers 42 = Inr b2" using textMatch_Inr[of 42] by auto
  obtain b3 where b3: "textMatch answers 43 = Inr b3" using textMatch_Inr[of 43] by auto
  show ?thesis
    by (simp add: forLoop_fold b1 b2 b3 textOK_def countIf_def)
qed

text \<open>The raw scores in closed form: the grading cannot fail.\<close>

lemma scores_closed:
  "calculateActualScores answers =
     Inr \<lparr>GrammarVocabulary = length (filter (choiceMatch answers) [1..20]),
          ReadingWriting = length (filter (choiceMatch answers) [21..35])
             + length (filter (orderingMatch answers) [36..40])
             + length (filter (textOK answers) [41..43])
             + (if essayMatch answers then 1 else 0),
          Listening = length (filter (choiceMatch answers) [45..56])\<rparr>"
  unfolding calculateActualScores_def Let_def forLoop_count text_loop
  by (simp add: countIf_def)

text \<open>The raw scores stay within the maxima the normalization divides by.\<close>

lemma raw_scores_in_range:
  assumes "calculateActualScores answers = Inr rs"
  shows "GrammarVocabulary rs \<le> 20 \<and> ReadingWriting rs \<le> 24 \<and> Listening rs \<le> 12"
proof -
  have l: "length (filter P [lo..hi]) \<le> nat (hi + 1 - lo)" for P and lo hi :: int
    using length_filter_le[of P "[lo..hi]"] by simp
  have "length (filter (choiceMatch answers) [1..20]) \<le> 20"
    "length (filter (choiceMatch answers) [21..35]) \<le> 15"
    "length (filter (orderingMatch answers) [36..40]) \<le> 5"
    "length (filter (textOK answers) [41..43]) \<le> 3"
    "length (filter (choiceMatch answers) [45..56]) \<le> 12"
    using l[of "choiceMatch answers" 1 20] l[of "choiceMatch answers" 21 35]
      l[of "orderingMatch answers" 36 40] l[of "textOK answers" 41 43]
      l[of "choiceMatch answers" 45 56]
    by simp_all
  moreover have "rs = \<lparr>GrammarVocabulary = length (filter (choiceMatch answers) [1..20]),
          ReadingWriting = length (filter (choiceMatch answers) [21..35])
             + length (filter (orderingMatch answers) [36..40])
             + length (filter (textOK answers) [41..43])
             + (if essayMatch answers then 1 else 0),
          Listening = length (filter (choiceMatch answers) [45..56])\<rparr>"
    using assms unfolding scores_closed by simp
  ultimately show ?thesis by simp
qed

text \<open>Facts for evaluating the grading of a given answer set.\<close>

lemma upto_1_20: "[1..20::int] = [1,2,3,4,5,6,7,8,9,10,11,12,13,14,15,16,17,18,19,20]"
  by (simp add: upto_rec1)

lemmas eval_defs = choiceMatch_def orderingMatch_def textOK_def textMatch_def essayMatch_def
  essayAnswerOf_def wordCountOf_def CORRECT_ANSWERS_def TEXT_ANSWER_KEYWORDS_def trim_def
  isWhiteSpace_def toLowerCase_def toUpperCase_def lowerUnit_def upperUnit_def js_def upto_1_20

section \<open>Strings\<close>

text \<open>\<open>includes\<close> is the substring test.\<close>

lemma startsWith_iff: "startsWith s t \<longleftrightarrow> (\<exists>post. s = t @ post)"
  by (induction s t rule: startsWith.induct) auto

lemma includes_str_iff: "includes_str s t \<longleftrightarrow> (\<exists>pre post. s = pre @ t @ post)"
proof (induction s)
  case Nil
  show ?case by simp
next
  case (Cons a s)
  show ?case
  proof
    assume "includes_str (a # s) t"
    then consider "startsWith (a # s) t" | "includes_str s t" by auto
    then show "\<exists>pre post. a # s = pre @ t @ post"
    proof cases
      case 1
      then obtain post where "a # s = t @ post" using startsWith_iff by blast
      then have "a # s = [] @ t @ post" by simp
      then show ?thesis by blast
    next
      case 2
      then obtain pre post where "s = pre @ t @ post" using Cons.IH by blast
      then have "a # s = (a # pre) @ t @ post" by simp
      then show ?thesis by blast
    qed
  next
    assume "\<exists>pre post. a # s = pre @ t @ post"
    then obtain pre post where e: "a # s = pre @ t @ post" by blast
    show "includes_str (a # s) t"
    proof (cases pre)
      case Nil
      with e have "startsWith (a # s) t" using startsWith_iff by auto
      then show ?thesis by simp
    next
      case (Cons b pre')
      with e have "s = pre' @ t @ post" by simp
      then have "includes_str s t" using Cons.IH by blast
      then show ?thesis by simp
    qed
  qed
qed

lemma includes_str_rev: "includes_str (rev s) (rev t) = includes_str s t"
proof -
  have "(\<exists>pre post. rev s = pre @ rev t @ post) \<longleftrightarrow> (\<exists>pre post. s = pre @ t @ post)"
  proof
    assume "\<exists>pre post. rev s = pre @ rev t @ post"
    then obtain pre post where "rev s = pre @ rev t @ post" by blast
    then have "rev (rev s) = rev (pre @ rev t @ post)" by simp
    then have "s = rev post @ t @ rev pre" by simp
    then show "\<exists>pre post. s = pre @ t @ post" by blast
  next
    assume "\<exists>pre post. s = pre @ t @ post"
    then obtain pre post where "s = pre @ t @ post" by blast
    then have "rev s = rev post @ rev t @ rev pre" by simp
    then show "\<exists>pre post. rev s = pre @ rev t @ post" by blast
  qed
  then show ?thesis by (simp add: includes_str_iff)
qed

text \<open>A word without white space at its ends occurs in a text iff it occurs in the trimmed text.\<close>

lemma includes_str_dropWhile:
  "t \<noteq> [] \<Longrightarrow> \<not> P (hd t) \<Longrightarrow> includes_str (dropWhile P s) t = includes_str s t"
proof (induction s)
  case Nil
  show ?case by simp
next
  case (Cons c s)
  obtain d t' where t: "t = d # t'" using Cons.prems(1) by (cases t) auto
  show ?case using Cons t by auto
qed

lemma includes_str_trim:
  assumes "t \<noteq> []" "\<not> isWhiteSpace (hd t)" "\<not> isWhiteSpace (last t)"
  shows "includes_str (trim s) t = includes_str s t"
proof -
  have r: "rev t \<noteq> []" "\<not> isWhiteSpace (hd (rev t))" using assms by (simp_all add: hd_rev)
  have "includes_str (trim s) t = includes_str (dropWhile isWhiteSpace (rev (dropWhile isWhiteSpace s))) (rev t)"
    unfolding trim_def using includes_str_rev[of "dropWhile isWhiteSpace (rev (dropWhile isWhiteSpace s))" "rev t"] by simp
  also have "\<dots> = includes_str (rev (dropWhile isWhiteSpace s)) (rev t)"
    using includes_str_dropWhile[of "rev t" isWhiteSpace "rev (dropWhile isWhiteSpace s)"] r by simp
  also have "\<dots> = includes_str (dropWhile isWhiteSpace s) t" by (rule includes_str_rev)
  also have "\<dots> = includes_str s t"
    using includes_str_dropWhile[of t isWhiteSpace s] assms(1,2) by simp
  finally show ?thesis .
qed

text \<open>\<open>trim\<close> removes white space around the text, and nothing else.\<close>

lemma trim_decomp:
  "\<exists>pre post. s = pre @ trim s @ post \<and> list_all isWhiteSpace pre \<and> list_all isWhiteSpace post"
proof -
  let ?b = "dropWhile isWhiteSpace s"
  have 1: "s = takeWhile isWhiteSpace s @ ?b" by simp
  have "rev (takeWhile isWhiteSpace (rev ?b) @ dropWhile isWhiteSpace (rev ?b)) = rev (rev ?b)"
    by (simp only: takeWhile_dropWhile_id)
  then have 2: "?b = trim s @ rev (takeWhile isWhiteSpace (rev ?b))"
    by (simp only: rev_append rev_rev_ident trim_def)
  have 3: "list_all isWhiteSpace (takeWhile isWhiteSpace s)"
    by (auto simp: list_all_iff dest: set_takeWhileD)
  have 4: "list_all isWhiteSpace (rev (takeWhile isWhiteSpace (rev ?b)))"
    by (auto simp: list_all_iff dest: set_takeWhileD)
  from 1 2 have "s = takeWhile isWhiteSpace s @ trim s @ rev (takeWhile isWhiteSpace (rev ?b))" by metis
  with 3 4 show ?thesis by blast
qed

lemma trim_eq_iff:
  assumes "key \<noteq> []" "\<not> isWhiteSpace (hd key)" "\<not> isWhiteSpace (last key)"
  shows "trim a = key \<longleftrightarrow>
    (\<exists>pre post. a = pre @ key @ post \<and> list_all isWhiteSpace pre \<and> list_all isWhiteSpace post)"
proof
  assume "trim a = key"
  then show "\<exists>pre post. a = pre @ key @ post \<and> list_all isWhiteSpace pre \<and> list_all isWhiteSpace post"
    using trim_decomp[of a] by simp
next
  assume "\<exists>pre post. a = pre @ key @ post \<and> list_all isWhiteSpace pre \<and> list_all isWhiteSpace post"
  then obtain pre post where a: "a = pre @ key @ post" and p: "list_all isWhiteSpace pre" "list_all isWhiteSpace post"
    by blast
  obtain d k' where k: "key = d # k'" using assms(1) by (cases key) auto
  have d: "\<not> isWhiteSpace d" using assms(2) k by simp
  have 1: "dropWhile isWhiteSpace a = key @ post"
    using p(1) d unfolding a k by (simp add: dropWhile_append3 list_all_iff dropWhile_append2)
  have "rev key \<noteq> []" "\<not> isWhiteSpace (hd (rev key))" using assms by (simp_all add: hd_rev)
  then obtain e k'' where rk: "rev key = e # k''" "\<not> isWhiteSpace e" by (cases "rev key") auto
  have "dropWhile isWhiteSpace (rev post @ rev key) = dropWhile isWhiteSpace (rev key)"
    using p(2) by (intro dropWhile_append2) (simp add: list_all_iff)
  also have "\<dots> = rev key" using rk by simp
  finally have 2: "dropWhile isWhiteSpace (rev (key @ post)) = rev key" by simp
  show "trim a = key" by (simp add: trim_def 1 2 del: rev_append)
qed

lemma trim_all_ws: "list_all isWhiteSpace a \<Longrightarrow> trim a = []"
  by (auto simp: trim_def list_all_iff dest: set_dropWhileD)

text \<open>
  Lower-casing leaves white space alone, so a word without white space at its ends
  occurs in the lower-cased text iff it occurs in the lower-cased trimmed text.
\<close>

lemma lowerUnit_ws: "isWhiteSpace c \<Longrightarrow> lowerUnit c = [c]"
  by (auto simp: isWhiteSpace_def lowerUnit_def)

lemma toLowerCase_ws: "list_all isWhiteSpace s \<Longrightarrow> toLowerCase s = s"
  by (induction s) (simp_all add: toLowerCase_def lowerUnit_ws)

lemma toLowerCase_append: "toLowerCase (a @ b) = toLowerCase a @ toLowerCase b"
  by (simp add: toLowerCase_def)

lemma includes_str_ws_prefix:
  assumes "list_all P pre" "t \<noteq> []" "\<not> P (hd t)"
  shows "includes_str (pre @ s) t = includes_str s t"
proof -
  have "dropWhile P (pre @ s) = dropWhile P s"
    using assms(1) by (intro dropWhile_append2) (simp add: list_all_iff)
  then have "includes_str (pre @ s) t = includes_str (dropWhile P s) t"
    using includes_str_dropWhile[of t P "pre @ s"] assms(2,3) by simp
  also have "\<dots> = includes_str s t"
    using includes_str_dropWhile[of t P s] assms(2,3) by simp
  finally show ?thesis .
qed

lemma includes_str_ws_suffix:
  assumes "list_all P post" "t \<noteq> []" "\<not> P (last t)"
  shows "includes_str (s @ post) t = includes_str s t"
proof -
  have "includes_str (s @ post) t = includes_str (rev post @ rev s) (rev t)"
    using includes_str_rev[of "s @ post" t] by simp
  also have "\<dots> = includes_str (rev s) (rev t)"
    using assms by (intro includes_str_ws_prefix[of P]) (simp_all add: hd_rev list_all_iff)
  also have "\<dots> = includes_str s t" by (rule includes_str_rev)
  finally show ?thesis .
qed

lemma includes_lower_trim:
  assumes "t \<noteq> []" "\<not> isWhiteSpace (hd t)" "\<not> isWhiteSpace (last t)"
  shows "includes_str (toLowerCase (trim a)) t = includes_str (toLowerCase a) t"
proof -
  obtain pre post where a: "a = pre @ trim a @ post"
    and w: "list_all isWhiteSpace pre" "list_all isWhiteSpace post"
    using trim_decomp[of a] by blast
  have "toLowerCase a = toLowerCase (pre @ trim a @ post)" using a by simp
  also have "\<dots> = pre @ toLowerCase (trim a) @ post"
    using w by (simp add: toLowerCase_append toLowerCase_ws)
  finally have "includes_str (toLowerCase a) t = includes_str (pre @ toLowerCase (trim a) @ post) t"
    by simp
  also have "\<dots> = includes_str (toLowerCase (trim a) @ post) t"
    using w(1) assms(1,2) by (rule includes_str_ws_prefix)
  also have "\<dots> = includes_str (toLowerCase (trim a)) t"
    using w(2) assms(1,3) by (rule includes_str_ws_suffix)
  finally show ?thesis by simp
qed

text \<open>The substring test of the model is occurrence.\<close>

lemma includes_str_occursIn: "includes_str s t = occursIn t s"
  by (simp add: includes_str_iff occursIn_def)

text \<open>Splitting at white space gives one piece more than there are runs of white space.\<close>

lemma wsRuns_ws: "isWhiteSpace c \<Longrightarrow> wsRuns (c # cs) = 1 + wsRuns (dropWhile isWhiteSpace cs)"
proof (induction cs arbitrary: c)
  case Nil
  then show ?case by simp
next
  case (Cons d cs)
  then show ?case by (cases "isWhiteSpace d") simp_all
qed

lemma wsRuns_word: "\<not> isWhiteSpace c \<Longrightarrow> wsRuns (c # cs) = wsRuns cs"
  by (cases cs) simp_all

lemma split_ws_length: "length (split_ws cur s) = 1 + wsRuns s"
proof (induction cur s rule: split_ws.induct)
  case (1 cur)
  show ?case by simp
next
  case (2 cur c cs)
  show ?case
  proof (cases "isWhiteSpace c")
    case True
    with 2 show ?thesis by (simp add: wsRuns_ws)
  next
    case False
    with 2 show ?thesis by (simp add: wsRuns_word)
  qed
qed

section \<open>Ordered lists and the essay\<close>

text \<open>An answer bears on its own question only.\<close>

lemma choiceMatch_upd: "j \<noteq> i \<Longrightarrow> choiceMatch (answers(i := x)) j = choiceMatch answers j"
  by (simp add: choiceMatch_def)

lemma orderingMatch_upd: "j \<noteq> i \<Longrightarrow> orderingMatch (answers(i := x)) j = orderingMatch answers j"
  by (simp add: orderingMatch_def)

lemma textOK_upd: "j \<noteq> i \<Longrightarrow> textOK (answers(i := x)) j = textOK answers j"
  by (simp add: textOK_def textMatch_def)

lemma essayMatch_upd: "i \<noteq> 44 \<Longrightarrow> essayMatch (answers(i := x)) = essayMatch answers"
  by (simp add: essayMatch_def essayAnswerOf_def)

lemma filter_upd:
  assumes "\<And>j. j \<noteq> i \<Longrightarrow> P' j = P j" "i \<notin> set xs"
  shows "filter P' xs = filter P xs"
proof (rule filter_cong[OF refl])
  fix x
  assume "x \<in> set xs"
  then have "x \<noteq> i" using assms(2) by auto
  then show "P' x = P x" by (rule assms(1))
qed

lemma filter_length_upd:
  assumes "distinct xs" "i \<in> set xs" "\<And>j. j \<noteq> i \<Longrightarrow> P' j = P j" "\<not> P i"
  shows "length (filter P' xs) = length (filter P xs) + (if P' i then 1 else 0)"
  using assms(1,2)
proof (induction xs)
  case Nil
  then show ?case by simp
next
  case (Cons x xs)
  show ?case
  proof (cases "x = i")
    case True
    then have "i \<notin> set xs" using Cons.prems(1) by simp
    then have "filter P' xs = filter P xs" using assms(3) by (intro filter_upd) auto
    with True assms(4) show ?thesis by simp
  next
    case False
    then have "i \<in> set xs" "distinct xs" using Cons.prems by auto
    then have "length (filter P' xs) = length (filter P xs) + (if P' i then 1 else 0)"
      using Cons.IH by simp
    with False assms(3)[of x] show ?thesis by simp
  qed
qed

lemma ordering_keys:
  "36 \<le> i \<Longrightarrow> i \<le> 40 \<Longrightarrow>
   \<exists>key. map_of CORRECT_ANSWERS i = Some key \<and> key \<noteq> [] \<and> \<not> isWhiteSpace (hd key) \<and> \<not> isWhiteSpace (last key)"
proof -
  assume "36 \<le> i" "i \<le> 40"
  then consider "i = 36" | "i = 37" | "i = 38" | "i = 39" | "i = 40" by arith
  then show ?thesis
    by cases (simp_all add: CORRECT_ANSWERS_def isWhiteSpace_def js_def)
qed

lemma ordering_delta:
  assumes "36 \<le> i" "i \<le> 40" "map_of CORRECT_ANSWERS i = Some key"
  shows "\<exists>rs rs'. calculateActualScores (answers(i := None)) = Inr rs
       \<and> calculateActualScores (answers(i \<mapsto> a)) = Inr rs'
       \<and> ReadingWriting rs' = ReadingWriting rs + (if trim a = key then 1 else 0)
       \<and> GrammarVocabulary rs' = GrammarVocabulary rs \<and> Listening rs' = Listening rs"
proof -
  let ?A0 = "answers(i := None)" and ?A1 = "answers(i \<mapsto> a)"
  have A1: "?A1 = ?A0(i \<mapsto> a)" by simp
  have n1: "i \<notin> set [1..20]" "i \<notin> set [21..35]" "i \<notin> set [41..43]" "i \<notin> set [45..56]" "i \<noteq> 44"
    unfolding set_upto using assms(1,2) by simp_all
  have c: "filter (choiceMatch ?A1) xs = filter (choiceMatch ?A0) xs" if "i \<notin> set xs" for xs
    unfolding A1 using that by (intro filter_upd[of i]) (simp_all add: choiceMatch_upd)
  have t: "filter (textOK ?A1) [41..43] = filter (textOK ?A0) [41..43]"
    unfolding A1 using n1(3) by (intro filter_upd[of i]) (simp_all add: textOK_upd)
  have e: "essayMatch ?A1 = essayMatch ?A0"
    unfolding A1 using n1(5) by (simp add: essayMatch_upd)
  have p0: "\<not> orderingMatch ?A0 i" using assms(3) by (simp add: orderingMatch_def)
  have p1: "orderingMatch ?A1 i \<longleftrightarrow> trim a = key" using assms(3) by (simp add: orderingMatch_def)
  have m: "i \<in> set [36..40]" unfolding set_upto using assms(1,2) by simp
  have "length (filter (orderingMatch (?A0(i \<mapsto> a))) [36..40])
        = length (filter (orderingMatch ?A0) [36..40]) + (if orderingMatch (?A0(i \<mapsto> a)) i then 1 else 0)"
  proof (rule filter_length_upd)
    show "distinct [36..40::int]" by (rule distinct_upto)
    show "i \<in> set [36..40]" by (rule m)
    show "orderingMatch (?A0(i \<mapsto> a)) j = orderingMatch ?A0 j" if "j \<noteq> i" for j
      using that by (rule orderingMatch_upd)
    show "\<not> orderingMatch ?A0 i" by (rule p0)
  qed
  then have o: "length (filter (orderingMatch ?A1) [36..40])
        = length (filter (orderingMatch ?A0) [36..40]) + (if trim a = key then 1 else 0)"
    using p1 by (simp only: A1[symmetric])
  define G where "G = length (filter (choiceMatch ?A0) [1..20])"
  define C where "C = length (filter (choiceMatch ?A0) [21..35])"
  define Od where "Od = length (filter (orderingMatch ?A0) [36..40])"
  define T where "T = length (filter (textOK ?A0) [41..43])"
  define E where "E = (if essayMatch ?A0 then 1 else 0 :: nat)"
  define L where "L = length (filter (choiceMatch ?A0) [45..56])"
  have s0: "calculateActualScores ?A0 =
      Inr \<lparr>GrammarVocabulary = G, ReadingWriting = C + Od + T + E, Listening = L\<rparr>"
    unfolding G_def C_def Od_def T_def E_def L_def by (rule scores_closed)
  have s1: "calculateActualScores ?A1 =
      Inr \<lparr>GrammarVocabulary = G, ReadingWriting = C + (Od + (if trim a = key then 1 else 0)) + T + E,
           Listening = L\<rparr>"
    unfolding G_def C_def Od_def T_def E_def L_def
      c[OF n1(1), symmetric] c[OF n1(2), symmetric] c[OF n1(4), symmetric] t[symmetric] e[symmetric]
      o[symmetric]
    by (rule scores_closed)
  show ?thesis unfolding s0 s1 by simp
qed

lemma q36:
  "calculateActualScores [36 \<mapsto> js ''B, C, D, A''] = Inr \<lparr>GrammarVocabulary = 0, ReadingWriting = 1, Listening = 0\<rparr>"
  "calculateActualScores [36 \<mapsto> js ''b, c, d, a''] = Inr \<lparr>GrammarVocabulary = 0, ReadingWriting = 0, Listening = 0\<rparr>"
  "calculateActualScores [36 \<mapsto> js ''B,C,D,A''] = Inr \<lparr>GrammarVocabulary = 0, ReadingWriting = 0, Listening = 0\<rparr>"
  by (simp_all add: scores_closed eval_defs)

text \<open>
  C8. For a question from 36 to 40, putting an answer in place of no answer raises the
  ReadingWriting score by one if the answer, trimmed of the white space around it and
  nothing else (no case folding), equals the key character for character, that is, if the
  answer is the key with nothing but white space before and after it, and leaves the
  scores as they are otherwise. For question 36 the answer \<open>B, C, D, A\<close> scores; \<open>b, c, d, a\<close>
  and \<open>B,C,D,A\<close> do not.
\<close>

theorem ordering_point:
  "(36 \<le> i \<and> i \<le> 40 \<longrightarrow>
     (\<exists>key rs rs'. map_of CORRECT_ANSWERS i = Some key
        \<and> calculateActualScores (answers(i := None)) = Inr rs
        \<and> calculateActualScores (answers(i \<mapsto> a)) = Inr rs'
        \<and> ReadingWriting rs' = ReadingWriting rs + (if trim a = key then 1 else 0)
        \<and> GrammarVocabulary rs' = GrammarVocabulary rs \<and> Listening rs' = Listening rs
        \<and> (trim a = key \<longleftrightarrow>
             (\<exists>pre post. a = pre @ key @ post \<and> list_all isWhiteSpace pre \<and> list_all isWhiteSpace post))))
   \<and> calculateActualScores [36 \<mapsto> js ''B, C, D, A'']
        = Inr \<lparr>GrammarVocabulary = 0, ReadingWriting = 1, Listening = 0\<rparr>
   \<and> calculateActualScores [36 \<mapsto> js ''b, c, d, a'']
        = Inr \<lparr>GrammarVocabulary = 0, ReadingWriting = 0, Listening = 0\<rparr>
   \<and> calculateActualScores [36 \<mapsto> js ''B,C,D,A'']
        = Inr \<lparr>GrammarVocabulary = 0, ReadingWriting = 0, Listening = 0\<rparr>"
proof (intro conjI impI)
  assume r: "36 \<le> i \<and> i \<le> 40"
  then obtain key where k: "map_of CORRECT_ANSWERS i = Some key" "key \<noteq> []"
      "\<not> isWhiteSpace (hd key)" "\<not> isWhiteSpace (last key)"
    using ordering_keys by blast
  from ordering_delta[of i key answers a] r k(1) obtain rs rs' where
    d: "calculateActualScores (answers(i := None)) = Inr rs"
       "calculateActualScores (answers(i \<mapsto> a)) = Inr rs'"
       "ReadingWriting rs' = ReadingWriting rs + (if trim a = key then 1 else 0)"
       "GrammarVocabulary rs' = GrammarVocabulary rs" "Listening rs' = Listening rs"
    by blast
  from k(1) d trim_eq_iff[OF k(2,3,4), of a]
  show "\<exists>key rs rs'. map_of CORRECT_ANSWERS i = Some key
        \<and> calculateActualScores (answers(i := None)) = Inr rs
        \<and> calculateActualScores (answers(i \<mapsto> a)) = Inr rs'
        \<and> ReadingWriting rs' = ReadingWriting rs + (if trim a = key then 1 else 0)
        \<and> GrammarVocabulary rs' = GrammarVocabulary rs \<and> Listening rs' = Listening rs
        \<and> (trim a = key \<longleftrightarrow>
             (\<exists>pre post. a = pre @ key @ post \<and> list_all isWhiteSpace pre \<and> list_all isWhiteSpace post))"
    by blast
qed (rule q36)+

theorem ordering_point_witness:
  "36 \<le> (37::int) \<and> (37::int) \<le> 40
   \<and> (\<exists>rs rs'. calculateActualScores (Map.empty(37 := None)) = Inr rs
        \<and> calculateActualScores [37 \<mapsto> [0xA0, 0x20] @ js ''C, B, A, D'' @ [0x3000, 0x0A]] = Inr rs'
        \<and> ReadingWriting rs' = ReadingWriting rs + 1)
   \<and> (\<exists>rs rs'. calculateActualScores (Map.empty(37 := None)) = Inr rs
        \<and> calculateActualScores [37 \<mapsto> js ''C, B,  A, D''] = Inr rs'
        \<and> ReadingWriting rs' = ReadingWriting rs)"
proof -
  have 1: "\<exists>rs rs'. calculateActualScores (Map.empty(37 := None)) = Inr rs
        \<and> calculateActualScores [37 \<mapsto> [0xA0, 0x20] @ js ''C, B, A, D'' @ [0x3000, 0x0A]] = Inr rs'
        \<and> ReadingWriting rs' = ReadingWriting rs + 1"
    using ordering_point[of 37 Map.empty "[0xA0, 0x20] @ js ''C, B, A, D'' @ [0x3000, 0x0A]",
        THEN conjunct1]
    by (simp add: CORRECT_ANSWERS_def trim_def isWhiteSpace_def js_def) blast
  have 2: "\<exists>rs rs'. calculateActualScores (Map.empty(37 := None)) = Inr rs
        \<and> calculateActualScores [37 \<mapsto> js ''C, B,  A, D''] = Inr rs'
        \<and> ReadingWriting rs' = ReadingWriting rs"
    using ordering_point[of 37 Map.empty "js ''C, B,  A, D''", THEN conjunct1]
    by (simp add: CORRECT_ANSWERS_def trim_def isWhiteSpace_def js_def) blast
  from 1 2 show ?thesis by simp
qed

text \<open>The essay rule of question 44.\<close>

lemma essayMatch_iff:
  "essayMatch answers \<longleftrightarrow>
     (\<exists>a. answers 44 = Some a \<and> 80 \<le> wordCountOf (trim a) \<and> wordCountOf (trim a) \<le> 200
        \<and> (occursIn (js ''advantage'') (toLowerCase a) \<or> occursIn (js ''disadvantage'') (toLowerCase a)
           \<or> occursIn (js ''benefit'') (toLowerCase a) \<or> occursIn (js ''challenge'') (toLowerCase a)))"
proof (cases "answers 44")
  case None
  then show ?thesis by (simp add: essayMatch_def essayAnswerOf_def wordCountOf_def)
next
  case (Some a)
  have "includes_str (toLowerCase (trim a)) (js ''advantage'') = includes_str (toLowerCase a) (js ''advantage'')"
     "includes_str (toLowerCase (trim a)) (js ''disadvantage'') = includes_str (toLowerCase a) (js ''disadvantage'')"
     "includes_str (toLowerCase (trim a)) (js ''benefit'') = includes_str (toLowerCase a) (js ''benefit'')"
     "includes_str (toLowerCase (trim a)) (js ''challenge'') = includes_str (toLowerCase a) (js ''challenge'')"
    by (rule includes_lower_trim; simp add: isWhiteSpace_def js_def)+
  then have k: "includes_str (toLowerCase (trim a)) (js ''advantage'') = occursIn (js ''advantage'') (toLowerCase a)"
     "includes_str (toLowerCase (trim a)) (js ''disadvantage'') = occursIn (js ''disadvantage'') (toLowerCase a)"
     "includes_str (toLowerCase (trim a)) (js ''benefit'') = occursIn (js ''benefit'') (toLowerCase a)"
     "includes_str (toLowerCase (trim a)) (js ''challenge'') = occursIn (js ''challenge'') (toLowerCase a)"
    by (simp_all only: includes_str_occursIn)
  have w: "80 \<le> wordCountOf (trim a) \<Longrightarrow> trim a \<noteq> []" by (auto simp: wordCountOf_def)
  show ?thesis
    using Some w by (auto simp add: essayMatch_def essayAnswerOf_def Let_def k)
qed

lemma wordCountOf_runs: "wordCountOf t = (if t = [] then 0 else 1 + wsRuns t)"
  by (simp add: wordCountOf_def split_ws_length)

lemma essay_blank:
  "answers 44 = None \<or> (\<exists>a. answers 44 = Some a \<and> list_all isWhiteSpace a)
   \<Longrightarrow> wordCountOf (essayAnswerOf answers) = 0 \<and> \<not> essayMatch answers"
  by (auto simp: essayMatch_def essayAnswerOf_def wordCountOf_def trim_all_ws)

lemma essay_delta:
  "\<exists>rs rs0. calculateActualScores answers = Inr rs \<and> calculateActualScores (answers(44 := None)) = Inr rs0
      \<and> ReadingWriting rs = ReadingWriting rs0 + (if essayMatch answers then 1 else 0)
      \<and> GrammarVocabulary rs = GrammarVocabulary rs0 \<and> Listening rs = Listening rs0"
proof -
  let ?A0 = "answers(44 := None)"
  have c: "filter (choiceMatch ?A0) xs = filter (choiceMatch answers) xs" if "44 \<notin> set xs" for xs
    using that by (intro filter_upd[of 44]) (simp_all add: choiceMatch_upd)
  have od: "filter (orderingMatch ?A0) [36..40] = filter (orderingMatch answers) [36..40]"
    by (intro filter_upd[of 44]) (simp_all add: orderingMatch_upd)
  have t: "filter (textOK ?A0) [41..43] = filter (textOK answers) [41..43]"
    by (intro filter_upd[of 44]) (simp_all add: textOK_upd)
  have e: "\<not> essayMatch ?A0" using essay_blank[of ?A0] by simp
  have n: "44 \<notin> set [1..20::int]" "44 \<notin> set [21..35::int]" "44 \<notin> set [45..56::int]"
    unfolding set_upto by simp_all
  define G where "G = length (filter (choiceMatch answers) [1..20])"
  define C where "C = length (filter (choiceMatch answers) [21..35])"
  define Od where "Od = length (filter (orderingMatch answers) [36..40])"
  define T where "T = length (filter (textOK answers) [41..43])"
  define L where "L = length (filter (choiceMatch answers) [45..56])"
  have s: "calculateActualScores answers =
      Inr \<lparr>GrammarVocabulary = G, ReadingWriting = C + Od + T + (if essayMatch answers then 1 else 0),
           Listening = L\<rparr>"
    unfolding G_def C_def Od_def T_def L_def by (rule scores_closed)
  have "calculateActualScores ?A0 =
      Inr \<lparr>GrammarVocabulary = G, ReadingWriting = C + Od + T + (if essayMatch ?A0 then 1 else 0),
           Listening = L\<rparr>"
    unfolding G_def C_def Od_def T_def L_def
      c[OF n(1), symmetric] c[OF n(2), symmetric] c[OF n(3), symmetric] t[symmetric] od[symmetric]
    by (rule scores_closed)
  then have s0: "calculateActualScores ?A0 =
      Inr \<lparr>GrammarVocabulary = G, ReadingWriting = C + Od + T, Listening = L\<rparr>"
    using e by simp
  show ?thesis unfolding s s0 by simp
qed

text \<open>The sample essays, evaluated.\<close>

lemma essay_sample_scores: "wordCountOf (trim essay_sample) = 81 \<and> essayMatch [44 \<mapsto> essay_sample]"
  by code_simp

lemma essay_ideographic_scores:
  "wordCountOf (trim essay_ideographic) = 80 \<and> essayMatch [44 \<mapsto> essay_ideographic]"
  by code_simp

lemma essay_plain_fails: "wordCountOf (trim essay_plain) = 81 \<and> \<not> essayMatch [44 \<mapsto> essay_plain]"
  by code_simp

lemma essay_long_fails: "wordCountOf (trim essay_long) = 201 \<and> \<not> essayMatch [44 \<mapsto> essay_long]"
  by code_simp

lemma essay_short_fails: "wordCountOf (trim essay_short) = 79 \<and> \<not> essayMatch [44 \<mapsto> essay_short]"
  by code_simp

text \<open>
  C9. The essay point of question 44 is awarded iff the word count of the trimmed answer
  (one more than its runs of white space, 0 for an empty text) is from 80 to 200 and one
  of \<open>advantage\<close>, \<open>disadvantage\<close>, \<open>benefit\<close>, \<open>challenge\<close> occurs in the lower-cased
  answer; an absent, empty or blank answer has word count 0 and does not score.
\<close>

theorem essay_point:
  "(\<exists>rs rs0. calculateActualScores answers = Inr rs
      \<and> calculateActualScores (answers(44 := None)) = Inr rs0
      \<and> ReadingWriting rs = ReadingWriting rs0 + (if essayMatch answers then 1 else 0)
      \<and> GrammarVocabulary rs = GrammarVocabulary rs0 \<and> Listening rs = Listening rs0)
   \<and> (essayMatch answers \<longleftrightarrow>
        (\<exists>a. answers 44 = Some a \<and> 80 \<le> wordCountOf (trim a) \<and> wordCountOf (trim a) \<le> 200
           \<and> (occursIn (js ''advantage'') (toLowerCase a)
              \<or> occursIn (js ''disadvantage'') (toLowerCase a)
              \<or> occursIn (js ''benefit'') (toLowerCase a)
              \<or> occursIn (js ''challenge'') (toLowerCase a))))
   \<and> wordCountOf t = (if t = [] then 0 else 1 + wsRuns t)
   \<and> (answers 44 = None \<or> (\<exists>a. answers 44 = Some a \<and> list_all isWhiteSpace a)
        \<longrightarrow> wordCountOf (essayAnswerOf answers) = 0 \<and> \<not> essayMatch answers)"
  using essay_delta[of answers] essayMatch_iff[of answers] wordCountOf_runs[of t]
    essay_blank[of answers]
  by blast

theorem essay_point_witness:
  "wordCountOf (essayAnswerOf [44 \<mapsto> [0x20, 0x09, 0x3000, 0xA0]]) = 0
   \<and> \<not> essayMatch [44 \<mapsto> [0x20, 0x09, 0x3000, 0xA0]]
   \<and> (\<exists>rs rs0. calculateActualScores [44 \<mapsto> essay_sample] = Inr rs
         \<and> calculateActualScores ([44 \<mapsto> essay_sample](44 := None)) = Inr rs0
         \<and> ReadingWriting rs = ReadingWriting rs0 + 1)
   \<and> (\<exists>rs rs0. calculateActualScores [44 \<mapsto> essay_ideographic] = Inr rs
         \<and> calculateActualScores ([44 \<mapsto> essay_ideographic](44 := None)) = Inr rs0
         \<and> ReadingWriting rs = ReadingWriting rs0 + 1)
   \<and> wordCountOf (trim essay_plain) = 81
   \<and> \<not> occursIn (js ''benefit'') (toLowerCase essay_plain)
   \<and> (\<exists>rs rs0. calculateActualScores [44 \<mapsto> essay_plain] = Inr rs
         \<and> calculateActualScores ([44 \<mapsto> essay_plain](44 := None)) = Inr rs0
         \<and> ReadingWriting rs = ReadingWriting rs0)
   \<and> wordCountOf (trim essay_long) = 201
   \<and> (\<exists>rs rs0. calculateActualScores [44 \<mapsto> essay_long] = Inr rs
         \<and> calculateActualScores ([44 \<mapsto> essay_long](44 := None)) = Inr rs0
         \<and> ReadingWriting rs = ReadingWriting rs0)
   \<and> wordCountOf (trim essay_short) = 79
   \<and> (\<exists>rs rs0. calculateActualScores [44 \<mapsto> essay_short] = Inr rs
         \<and> calculateActualScores ([44 \<mapsto> essay_short](44 := None)) = Inr rs0
         \<and> ReadingWriting rs = ReadingWriting rs0)"
proof -
  have b: "wordCountOf (essayAnswerOf [44 \<mapsto> [0x20, 0x09, 0x3000, 0xA0]]) = 0
      \<and> \<not> essayMatch [44 \<mapsto> [0x20, 0x09, 0x3000, 0xA0]]"
    using essay_point[of "[44 \<mapsto> [0x20, 0x09, 0x3000, 0xA0]]", THEN conjunct2, THEN conjunct2,
        THEN conjunct2]
    by (simp add: isWhiteSpace_def)
  have p1: "\<exists>rs rs0. calculateActualScores [44 \<mapsto> essay_sample] = Inr rs
         \<and> calculateActualScores ([44 \<mapsto> essay_sample](44 := None)) = Inr rs0
         \<and> ReadingWriting rs = ReadingWriting rs0 + 1"
    using essay_point[of "[44 \<mapsto> essay_sample]", THEN conjunct1] essay_sample_scores
    by (simp only: if_True) blast
  have p2: "\<exists>rs rs0. calculateActualScores [44 \<mapsto> essay_ideographic] = Inr rs
         \<and> calculateActualScores ([44 \<mapsto> essay_ideographic](44 := None)) = Inr rs0
         \<and> ReadingWriting rs = ReadingWriting rs0 + 1"
    using essay_point[of "[44 \<mapsto> essay_ideographic]", THEN conjunct1] essay_ideographic_scores
    by (simp only: if_True) blast
  have n1: "\<exists>rs rs0. calculateActualScores [44 \<mapsto> essay_plain] = Inr rs
         \<and> calculateActualScores ([44 \<mapsto> essay_plain](44 := None)) = Inr rs0
         \<and> ReadingWriting rs = ReadingWriting rs0"
    using essay_point[of "[44 \<mapsto> essay_plain]", THEN conjunct1] essay_plain_fails
    by (simp only: if_False add_0_right) blast
  have n2: "\<exists>rs rs0. calculateActualScores [44 \<mapsto> essay_long] = Inr rs
         \<and> calculateActualScores ([44 \<mapsto> essay_long](44 := None)) = Inr rs0
         \<and> ReadingWriting rs = ReadingWriting rs0"
    using essay_point[of "[44 \<mapsto> essay_long]", THEN conjunct1] essay_long_fails
    by (simp only: if_False add_0_right) blast
  have n3: "\<exists>rs rs0. calculateActualScores [44 \<mapsto> essay_short] = Inr rs
         \<and> calculateActualScores ([44 \<mapsto> essay_short](44 := None)) = Inr rs0
         \<and> ReadingWriting rs = ReadingWriting rs0"
    using essay_point[of "[44 \<mapsto> essay_short]", THEN conjunct1] essay_short_fails
    by (simp only: if_False add_0_right) blast
  have k: "\<not> occursIn (js ''benefit'') (toLowerCase essay_plain)"
    using essay_point[of "[44 \<mapsto> essay_plain]", THEN conjunct2, THEN conjunct1] essay_plain_fails
    by simp
  from b p1 p2 n1 n2 n3 k essay_plain_fails essay_long_fails essay_short_fails
  show ?thesis by blast
qed

section \<open>The report\<close>

text \<open>Every level the tie-breaker returns is a key of the cutoff table.\<close>

lemma loop_keys:
  "applyTieBreaker_loop bs s g = Some r \<Longrightarrow> set (map fst bs) \<subseteq> set LEVEL_KEYS \<Longrightarrow> fst r \<in> set LEVEL_KEYS"
proof (induction bs)
  case Nil
  then show ?case by simp
next
  case (Cons e bs)
  obtain l band where e: "e = (l, band)" by (cases e)
  have l: "l \<in> set LEVEL_KEYS" using Cons.prems(2) e by simp
  have below: "0 < indexOf LEVEL_KEYS l \<Longrightarrow> LEVEL_KEYS ! nat (indexOf LEVEL_KEYS l - 1) \<in> set LEVEL_KEYS"
    using l by (auto simp: LEVEL_KEYS_eq)
  show ?case
    using Cons e l below by (auto simp: Let_def split: if_splits)
qed

lemma mapToLevel_loop_keys:
  "set (map fst bs) \<subseteq> set LEVEL_KEYS \<Longrightarrow> mapToLevel_loop bs s \<in> set LEVEL_KEYS"
proof (induction bs)
  case Nil
  show ?case by (simp add: LEVEL_KEYS_eq)
next
  case (Cons e bs)
  then show ?case by (cases e) simp
qed

lemma tb_level: "fst (applyTieBreaker s g) \<in> set LEVEL_KEYS"
proof (cases "applyTieBreaker_loop LEVEL_CUTOFFS s g")
  case None
  then show ?thesis
    using mapToLevel_loop_keys[of LEVEL_CUTOFFS s]
    by (simp add: applyTieBreaker_def mapToLevel_def LEVEL_KEYS_def)
next
  case (Some r)
  then show ?thesis
    using loop_keys[of LEVEL_CUTOFFS s g r]
    by (simp add: applyTieBreaker_def LEVEL_KEYS_def)
qed

lemma levelToNumber_S:
  "levelToNumber ''S1'' = Some 1" "levelToNumber ''S2'' = Some 2" "levelToNumber ''S3'' = Some 3"
  "levelToNumber ''S4'' = Some 4" "levelToNumber ''S5'' = Some 5"
  by (simp_all add: levelToNumber_def parseInt_def isWhiteSpace_def digitValue_def digitChars_def)

lemma showInt_S:
  "showInt 1 = ''1''" "showInt 2 = ''2''" "showInt 3 = ''3''" "showInt 4 = ''4''" "showInt 5 = ''5''"
  by (simp_all add: showInt_def showNat.simps digitChars_def)

lemma levelToNumber_keys:
  assumes "l \<in> set LEVEL_KEYS"
  shows "\<exists>n. levelToNumber l = Some n \<and> 1 \<le> n \<and> n \<le> 5 \<and> ''S'' @ showInt n = l"
proof -
  from assms consider "l = ''S1''" | "l = ''S2''" | "l = ''S3''" | "l = ''S4''" | "l = ''S5''"
    by (auto simp: LEVEL_KEYS_eq)
  then show ?thesis
    by cases (simp_all add: levelToNumber_S showInt_S)
qed

lemma newSet3: "set (newSet [a, b, c]) = {a, b, c}"
  by (auto simp: newSet_def)

lemma desc_keys: "l \<in> set LEVEL_KEYS \<Longrightarrow> \<exists>y. map_of LEVEL_DESCRIPTIONS l = Some y"
  by (auto simp: LEVEL_KEYS_eq LEVEL_DESCRIPTIONS_def)

text \<open>The report, field by field, in terms of the raw scores.\<close>

lemma calc_shape:
  "calculateActualScores answers = Inr rs \<Longrightarrow>
   \<exists>r rw li. calculateSEMFLevel answers = Inr r \<and> skills r = [rw, li] \<and>
     skill rw = ''ReadingWriting'' \<and> skill li = ''Listening'' \<and>
     rawScore rw = ReadingWriting rs \<and> rawScore li = Listening rs \<and>
     level rw = fst (applyTieBreaker (readingWritingNorm_of rs) (grammarVocabNorm_of rs)) \<and>
     level li = fst (applyTieBreaker (listeningNorm_of rs) (grammarVocabNorm_of rs)) \<and>
     tieBreakerApplied rw = snd (applyTieBreaker (readingWritingNorm_of rs) (grammarVocabNorm_of rs)) \<and>
     tieBreakerApplied li = snd (applyTieBreaker (listeningNorm_of rs) (grammarVocabNorm_of rs)) \<and>
     skill (tieBreakerSkill r) = ''GrammarVocabulary'' \<and>
     rawScore (tieBreakerSkill r) = GrammarVocabulary rs \<and>
     overallLevel r = ''S'' @ showNumber (Math_min (levelToNumber (level rw)) (levelToNumber (level li))) \<and>
     descriptions r = map (\<lambda>l. (l, map_of LEVEL_DESCRIPTIONS l)) (newSet [level rw, level li, overallLevel r]) \<and>
     summary r = getDetailedFeedback answers (overallLevel r) rs"
  by (simp add: calculateSEMFLevel_def Let_def)

lemma overall_min:
  assumes "levelToNumber a = Some n" "''S'' @ showInt n = a" "levelToNumber b = Some m" "''S'' @ showInt m = b"
  shows "''S'' @ showNumber (Math_min (levelToNumber a) (levelToNumber b)) = ''S'' @ showInt (min n m)"
    and "''S'' @ showNumber (Math_min (levelToNumber a) (levelToNumber b)) = (if n \<le> m then a else b)"
  using assms(1,3) assms(2,4)[symmetric] by (simp_all add: Math_min_def showNumber_def min_def)

text \<open>
  C3. A tie-break that fires moves the level by exactly one band. The code does not do
  this. Twenty-one right answers out of 24 give 175/4, whose base level is S5; with a
  grammar score below 35 the downward case of band S4 fires and returns the band below S4,
  which is S3, two bands under the base level, and that is the level of the report. At
  100/3, which lies in no band, the base level is the fallback S1 and the upward case of
  S4 gives S4.
\<close>

theorem tie_break_moves_two_bands:
  "calculateActualScores answers_downward
     = Inr \<lparr>GrammarVocabulary = 0, ReadingWriting = 21, Listening = 0\<rparr>
   \<and> readingWritingNorm_of \<lparr>GrammarVocabulary = 0, ReadingWriting = 21, Listening = 0\<rparr> = 175 / 4
   \<and> mapToLevel (175 / 4) = ''S5''
   \<and> applyTieBreaker (175 / 4) 0 = (''S3'', True)
   \<and> (\<exists>r rw li. calculateSEMFLevel answers_downward = Inr r \<and> skills r = [rw, li]
         \<and> skill rw = ''ReadingWriting'' \<and> rawScore rw = 21
         \<and> level rw = ''S3'' \<and> tieBreakerApplied rw)
   \<and> mapToLevel (100 / 3) = ''S1''
   \<and> applyTieBreaker (100 / 3) 35 = (''S4'', True)"
proof -
  have s: "calculateActualScores answers_downward
     = Inr \<lparr>GrammarVocabulary = 0, ReadingWriting = 21, Listening = 0\<rparr>"
    by (simp add: scores_closed answers_downward_def eval_defs)
  have n: "readingWritingNorm_of \<lparr>GrammarVocabulary = 0, ReadingWriting = 21, Listening = 0\<rparr> = 175 / 4"
    "grammarVocabNorm_of \<lparr>GrammarVocabulary = 0, ReadingWriting = 21, Listening = 0\<rparr> = 0"
    by (simp_all add: readingWritingNorm_of_def grammarVocabNorm_of_def)
  have t: "mapToLevel (175 / 4) = ''S5''" "applyTieBreaker (175 / 4) 0 = (''S3'', True)"
    "mapToLevel (100 / 3) = ''S1''" "applyTieBreaker (100 / 3) 35 = (''S4'', True)"
    by (simp_all add: applyTieBreaker_def mapToLevel_def LEVEL_CUTOFFS_def LEVEL_KEYS_eq)
  have r: "\<exists>r rw li. calculateSEMFLevel answers_downward = Inr r \<and> skills r = [rw, li]
         \<and> skill rw = ''ReadingWriting'' \<and> rawScore rw = 21
         \<and> level rw = ''S3'' \<and> tieBreakerApplied rw"
    using calc_shape[OF s] by (auto simp: n t)
  from s n(1) t r show ?thesis by blast
qed

lemma upward_case:
  "(l, band) \<in> set LEVEL_CUTOFFS \<Longrightarrow> min_cut band - 2 \<le> s \<Longrightarrow> s < min_cut band \<Longrightarrow> 35 \<le> g
   \<Longrightarrow> applyTieBreaker s g = (l, True)"
  by (auto simp add: applyTieBreaker_def mapToLevel_def LEVEL_CUTOFFS_def LEVEL_KEYS_eq)

text \<open>
  C4. For a score in the window of two points below the lower boundary of a band and a
  GrammarVocabulary score of at least 35, the tie-breaker returns that band with the flag
  set; for a ReadingWriting raw score of 7 (normalized 175/12, about 14.58, base level S1)
  and such a grammar score the report has the ReadingWriting level S2 with the flag set.
\<close>

theorem upward_tie_break:
  "(\<forall>l band. (l, band) \<in> set LEVEL_CUTOFFS \<and> min_cut band - 2 \<le> s \<and> s < min_cut band \<and> 35 \<le> g
       \<longrightarrow> applyTieBreaker s g = (l, True))
   \<and> (calculateActualScores answers = Inr rs \<and> ReadingWriting rs = 7 \<and> 35 \<le> grammarVocabNorm_of rs
       \<longrightarrow> (\<exists>r rw li. calculateSEMFLevel answers = Inr r \<and> skills r = [rw, li]
              \<and> skill rw = ''ReadingWriting'' \<and> level rw = ''S2'' \<and> tieBreakerApplied rw
              \<and> mapToLevel (readingWritingNorm_of rs) = ''S1''))"
proof (intro conjI allI impI)
  fix l band
  assume "(l, band) \<in> set LEVEL_CUTOFFS \<and> min_cut band - 2 \<le> s \<and> s < min_cut band \<and> 35 \<le> g"
  then show "applyTieBreaker s g = (l, True)" using upward_case by blast
next
  assume a: "calculateActualScores answers = Inr rs \<and> ReadingWriting rs = 7 \<and> 35 \<le> grammarVocabNorm_of rs"
  then have n: "readingWritingNorm_of rs = 175 / 12" by (simp add: readingWritingNorm_of_def)
  have tb: "applyTieBreaker (175 / 12) (grammarVocabNorm_of rs) = (''S2'', True)"
    using a upward_case[of "''S2''" "\<lparr>min_cut = 16, max_cut = 25\<rparr>" "175 / 12" "grammarVocabNorm_of rs"]
    by (simp add: LEVEL_CUTOFFS_def)
  have base: "mapToLevel (175 / 12) = ''S1''" by (simp add: mapToLevel_def LEVEL_CUTOFFS_def)
  from a calc_shape[of answers rs] show "\<exists>r rw li. calculateSEMFLevel answers = Inr r \<and> skills r = [rw, li]
              \<and> skill rw = ''ReadingWriting'' \<and> level rw = ''S2'' \<and> tieBreakerApplied rw
              \<and> mapToLevel (readingWritingNorm_of rs) = ''S1''"
    by (auto simp: n tb base)
qed

theorem upward_tie_break_witness:
  "applyTieBreaker (175 / 12) 35 = (''S2'', True)
   \<and> (\<exists>r rw li. calculateSEMFLevel answers_upward = Inr r \<and> skills r = [rw, li]
              \<and> skill rw = ''ReadingWriting'' \<and> level rw = ''S2'' \<and> tieBreakerApplied rw)"
proof -
  have s: "calculateActualScores answers_upward = Inr \<lparr>GrammarVocabulary = 14, ReadingWriting = 7, Listening = 0\<rparr>"
    by (simp add: scores_closed answers_upward_def eval_defs)
  have g: "applyTieBreaker (175 / 12) 35 = (''S2'', True)"
    using upward_tie_break[of "175 / 12" 35, THEN conjunct1, rule_format,
        of "''S2''" "\<lparr>min_cut = 16, max_cut = 25\<rparr>"]
    by (simp add: LEVEL_CUTOFFS_def)
  have p: "\<exists>r rw li. calculateSEMFLevel answers_upward = Inr r \<and> skills r = [rw, li]
              \<and> skill rw = ''ReadingWriting'' \<and> level rw = ''S2'' \<and> tieBreakerApplied rw"
    using upward_tie_break[of 0 0 answers_upward
        "\<lparr>GrammarVocabulary = 14, ReadingWriting = 7, Listening = 0\<rparr>", THEN conjunct2, rule_format] s
    by (simp add: grammarVocabNorm_of_def) blast
  from g p show ?thesis by blast
qed

text \<open>
  C5. For every answer set the engine returns a report whose overall level is S followed
  by the minimum of the numbers of the tie-break-adjusted ReadingWriting and Listening
  levels, that is, the lower of the two levels; nothing else enters the minimum.
\<close>

theorem overall_is_min:
  "\<exists>rs r rw li n m.
      calculateActualScores answers = Inr rs \<and> calculateSEMFLevel answers = Inr r \<and>
      skills r = [rw, li] \<and> skill rw = ''ReadingWriting'' \<and> skill li = ''Listening'' \<and>
      level rw = fst (applyTieBreaker (readingWritingNorm_of rs) (grammarVocabNorm_of rs)) \<and>
      level li = fst (applyTieBreaker (listeningNorm_of rs) (grammarVocabNorm_of rs)) \<and>
      levelToNumber (level rw) = Some n \<and> levelToNumber (level li) = Some m \<and>
      overallLevel r = ''S'' @ showInt (min n m) \<and>
      overallLevel r = (if n \<le> m then level rw else level li)"
proof -
  obtain rs where rs: "calculateActualScores answers = Inr rs"
    using scores_closed by blast
  from calc_shape[OF rs] obtain r rw li where r: "calculateSEMFLevel answers = Inr r" "skills r = [rw, li]"
     "skill rw = ''ReadingWriting''" "skill li = ''Listening''"
     "level rw = fst (applyTieBreaker (readingWritingNorm_of rs) (grammarVocabNorm_of rs))"
     "level li = fst (applyTieBreaker (listeningNorm_of rs) (grammarVocabNorm_of rs))"
     "overallLevel r = ''S'' @ showNumber (Math_min (levelToNumber (level rw)) (levelToNumber (level li)))"
    by blast
  have "level rw \<in> set LEVEL_KEYS" "level li \<in> set LEVEL_KEYS" by (simp_all add: r tb_level)
  then obtain n m where n: "levelToNumber (level rw) = Some n" "''S'' @ showInt n = level rw"
    and m: "levelToNumber (level li) = Some m" "''S'' @ showInt m = level li"
    using levelToNumber_keys by blast
  from overall_min[OF n m] r(7) have "overallLevel r = ''S'' @ showInt (min n m)"
    "overallLevel r = (if n \<le> m then level rw else level li)" by simp_all
  with rs r n m show ?thesis by blast
qed

text \<open>
  C7. For every answer map, with entries missing or with any text in them, the engine
  returns a complete report and raises no error.
\<close>

theorem engine_always_returns_report:
  "\<exists>r. calculateSEMFLevel answers = Inr r \<and> validReport r"
proof -
  obtain rs where rs: "calculateActualScores answers = Inr rs"
    using scores_closed by blast
  from calc_shape[OF rs] obtain r rw li where r: "calculateSEMFLevel answers = Inr r" "skills r = [rw, li]"
     "skill rw = ''ReadingWriting''" "skill li = ''Listening''"
     "level rw = fst (applyTieBreaker (readingWritingNorm_of rs) (grammarVocabNorm_of rs))"
     "level li = fst (applyTieBreaker (listeningNorm_of rs) (grammarVocabNorm_of rs))"
     "overallLevel r = ''S'' @ showNumber (Math_min (levelToNumber (level rw)) (levelToNumber (level li)))"
     "skill (tieBreakerSkill r) = ''GrammarVocabulary''"
     "descriptions r = map (\<lambda>l. (l, map_of LEVEL_DESCRIPTIONS l)) (newSet [level rw, level li, overallLevel r])"
     "summary r = getDetailedFeedback answers (overallLevel r) rs"
    by blast
  have k: "level rw \<in> set LEVEL_KEYS" "level li \<in> set LEVEL_KEYS" by (simp_all add: r tb_level)
  then obtain n m where n: "levelToNumber (level rw) = Some n" "''S'' @ showInt n = level rw"
    and m: "levelToNumber (level li) = Some m" "''S'' @ showInt m = level li"
    using levelToNumber_keys by blast
  from overall_min(2)[OF n m] r(7) have "overallLevel r = (if n \<le> m then level rw else level li)" by simp
  then have ov: "overallLevel r \<in> set LEVEL_KEYS" using k by simp
  have d1: "set (map fst (descriptions r)) = set (overallLevel r # map level (skills r))"
    by (auto simp: r(9) r(2) newSet3)
  have d2: "list_all (\<lambda>e. snd e \<noteq> None) (descriptions r)"
    using k ov desc_keys by (auto simp: r(9) list_all_iff newSet3)
  have s: "summary r \<noteq> []" by (simp add: r(10) getDetailedFeedback_def)
  have "validReport r"
    unfolding validReport_def using r(2,3,4,8) k ov d1 d2 s by simp
  with r(1) show ?thesis by blast
qed

theorem engine_always_returns_report_witness:
  "\<exists>r. calculateSEMFLevel Map.empty = Inr r \<and> validReport r"
  using engine_always_returns_report [of Map.empty] .

text \<open>The completion figure of the summary.\<close>

lemma summary_completion:
  "\<exists>pre post. getDetailedFeedback answers l rs =
      pre @ bullet @ '' Test Completion: '' @ showInt (Math_round (completionRate answers)) @ ''%'' @ post"
proof -
  have "getDetailedFeedback answers l rs =
      (''Overall SEMF Level: '' @ l @ newline @ newline
       @ ''Performance Breakdown:'' @ newline
       @ bullet @ '' Grammar & Vocabulary: '' @ showNat (GrammarVocabulary rs) @ ''/20 (''
         @ showInt (Math_round ((real (GrammarVocabulary rs) / 20) * 100)) @ ''%)'' @ newline
       @ bullet @ '' Reading & Writing: '' @ showNat (ReadingWriting rs) @ ''/24 (''
         @ showInt (Math_round ((real (ReadingWriting rs) / 24) * 100)) @ ''%)'' @ newline
       @ bullet @ '' Listening: '' @ showNat (Listening rs) @ ''/12 (''
         @ showInt (Math_round ((real (Listening rs) / 12) * 100)) @ ''%)'' @ newline)
      @ bullet @ '' Test Completion: '' @ showInt (Math_round (completionRate answers)) @ ''%''
      @ (newline @ newline @ recommendations l)"
    by (simp add: getDetailedFeedback_def completionLine_def)
  then show ?thesis by blast
qed

lemma completion_over:
  assumes "56 < card (dom answers)"
  shows "100 < Math_round (completionRate answers)"
proof -
  have "57 \<le> real (card (dom answers))" using assms by simp
  then have "101 \<le> completionRate answers + 1 / 2"
    by (simp add: completionRate_def totalAnswered_def)
  then have "101 \<le> Math_round (completionRate answers)"
    unfolding Math_round_def by (simp add: le_floor_iff)
  then show ?thesis by simp
qed

lemma dom_answers_57: "dom answers_57 = {1..57}"
  by (auto simp: answers_57_def dom_def)

lemma answers_57_completion: "Math_round (completionRate answers_57) = 102"
  by (simp add: completionRate_def totalAnswered_def dom_answers_57 Math_round_def)

text \<open>
  C10. The completion rate is the number of entries of the answer map over 56, times 100:
  an entry counts whatever its question number and its text, and the summary shows the
  rounded rate; with more than 56 entries the figure shown is above 100.
\<close>

theorem completion_counts_every_entry:
  "completionRate answers = real (card (dom answers)) / 56 * 100
   \<and> (finite (dom answers) \<and> k \<notin> dom answers
        \<longrightarrow> completionRate (answers(k \<mapsto> v)) = real (card (dom answers) + 1) / 56 * 100)
   \<and> (\<exists>r pre post. calculateSEMFLevel answers = Inr r
        \<and> summary r = pre @ bullet @ '' Test Completion: ''
             @ showInt (Math_round (completionRate answers)) @ ''%'' @ post)
   \<and> (56 < card (dom answers) \<longrightarrow> 100 < Math_round (completionRate answers))"
proof (intro conjI impI)
  show "completionRate answers = real (card (dom answers)) / 56 * 100"
    by (simp add: completionRate_def totalAnswered_def)
next
  assume "finite (dom answers) \<and> k \<notin> dom answers"
  then show "completionRate (answers(k \<mapsto> v)) = real (card (dom answers) + 1) / 56 * 100"
    by (simp add: completionRate_def totalAnswered_def)
next
  obtain rs where rs: "calculateActualScores answers = Inr rs"
    using scores_closed by blast
  from calc_shape[OF rs] obtain r where
    r: "calculateSEMFLevel answers = Inr r" "summary r = getDetailedFeedback answers (overallLevel r) rs"
    by blast
  from summary_completion[of answers "overallLevel r" rs] r
  show "\<exists>r pre post. calculateSEMFLevel answers = Inr r
        \<and> summary r = pre @ bullet @ '' Test Completion: ''
             @ showInt (Math_round (completionRate answers)) @ ''%'' @ post"
    by metis
next
  assume "56 < card (dom answers)"
  then show "100 < Math_round (completionRate answers)" by (rule completion_over)
qed

theorem completion_counts_every_entry_witness:
  "completionRate [0 \<mapsto> []] = 100 / 56
   \<and> 56 < card (dom answers_57)
   \<and> 100 < Math_round (completionRate answers_57)"
proof -
  have a: "completionRate [0 \<mapsto> []] = 100 / 56"
    using completion_counts_every_entry[of Map.empty 0 "[]", THEN conjunct2, THEN conjunct1]
    by simp
  have c: "56 < card (dom answers_57)" by (simp add: dom_answers_57)
  have "100 < Math_round (completionRate answers_57)"
    using completion_counts_every_entry[of answers_57, THEN conjunct2, THEN conjunct2, THEN conjunct2] c
    by simp
  with a c show ?thesis by simp
qed

end
